theory Spec2Isabelle
  imports Main "HOL-Library.AList" "HOL-Library.Product_Lexorder" "HOL-Library.Sublist"
begin

section \<open>Python values and exceptions\<close>

text \<open>
  The tracker works on the JSON documents that the issue-tracking service returns, parsed
  by \<^verbatim>\<open>response.json()\<close> into Python values. A dictionary is an association list in
  insertion order (what Python's \<^verbatim>\<open>dict\<close> keeps); a parsed dictionary has distinct keys.
  Numbers are the integers; JSON numbers with a fraction are outside this model.
\<close>

datatype json =
    JNull
  | JBool bool
  | JNum int
  | JStr string
  | JArr "json list"
  | JObj "(string \<times> json) list"

text \<open>
  The exceptions that the code can meet. \<open>RequestException\<close> stands for the whole
  hierarchy of \<^verbatim>\<open>requests.exceptions.RequestException\<close> (timeouts, refused
  connections, invalid URLs, \<^verbatim>\<open>HTTPError\<close> from \<^verbatim>\<open>raise_for_status\<close>, and the
  \<^verbatim>\<open>JSONDecodeError\<close> of \<^verbatim>\<open>response.json()\<close>, which is a \<^verbatim>\<open>RequestException\<close>
  since requests 2.27).
\<close>

datatype error = RequestException | AttributeError | TypeError | ValueError

text \<open>Sequencing of statements that may raise: the first exception ends the block.\<close>

definition and_then :: "error + 'a \<Rightarrow> ('a \<Rightarrow> error + 'b) \<Rightarrow> error + 'b" where
  "and_then r f = (case r of Inl e \<Rightarrow> Inl e | Inr x \<Rightarrow> f x)"

text \<open>\<^verbatim>\<open>try: ... except requests.exceptions.RequestException: logger.info(e)\<close>, followed
  by the \<^verbatim>\<open>return\<close> after the handler: only a \<open>RequestException\<close> is caught.\<close>

definition except_RequestException :: "error + 'a \<Rightarrow> 'a \<Rightarrow> error + 'a" where
  "except_RequestException r fallback =
     (case r of Inl RequestException \<Rightarrow> Inr fallback | Inl e \<Rightarrow> Inl e | Inr x \<Rightarrow> Inr x)"

text \<open>Truth value of a Python object (\<^verbatim>\<open>if x\<close>, \<^verbatim>\<open>not x\<close>, \<^verbatim>\<open>filter\<close>).\<close>

fun truthy :: "json \<Rightarrow> bool" where
  "truthy JNull = False"
| "truthy (JBool b) = b"
| "truthy (JNum n) = (n \<noteq> 0)"
| "truthy (JStr s) = (s \<noteq> [])"
| "truthy (JArr xs) = (xs \<noteq> [])"
| "truthy (JObj kvs) = (kvs \<noteq> [])"

text \<open>Python's \<^verbatim>\<open>==\<close> on these values: \<^verbatim>\<open>True == 1\<close>, lists compare element by
  element, dictionaries compare as maps.\<close>

fun py_eq :: "json \<Rightarrow> json \<Rightarrow> bool" where
  "py_eq JNull JNull = True"
| "py_eq (JBool a) (JBool b) = (a = b)"
| "py_eq (JBool a) (JNum n) = ((if a then 1 else 0) = n)"
| "py_eq (JNum n) (JBool b) = (n = (if b then 1 else 0))"
| "py_eq (JNum m) (JNum n) = (m = n)"
| "py_eq (JStr s) (JStr t) = (s = t)"
| "py_eq (JArr []) (JArr ys) = (ys = [])"
| "py_eq (JArr (x # xs)) (JArr ys) =
     (case ys of [] \<Rightarrow> False | y # ys' \<Rightarrow> py_eq x y \<and> py_eq (JArr xs) (JArr ys'))"
| "py_eq (JObj []) (JObj b) = (b = [])"
| "py_eq (JObj ((k, v) # a)) (JObj b) =
     (case map_of b k of
        None \<Rightarrow> False
      | Some w \<Rightarrow> py_eq v w \<and> py_eq (JObj a) (JObj (AList.delete k b)))"
| "py_eq _ _ = False"

text \<open>\<^verbatim>\<open>x in xs\<close> for a list \<open>xs\<close>.\<close>

definition py_in :: "json \<Rightarrow> json list \<Rightarrow> bool" where
  "py_in x xs = list_ex (py_eq x) xs"

text \<open>\<^verbatim>\<open>d.get(key, default)\<close>: an \<^verbatim>\<open>AttributeError\<close> when \<open>d\<close> is not a dictionary
  (\<^verbatim>\<open>None\<close>, a string, a number and a list have no \<^verbatim>\<open>get\<close>).\<close>

fun dict_get :: "json \<Rightarrow> string \<Rightarrow> json \<Rightarrow> error + json" where
  "dict_get (JObj kvs) k d = Inr (case map_of kvs k of Some v \<Rightarrow> v | None \<Rightarrow> d)"
| "dict_get _ k d = Inl AttributeError"

text \<open>\<^verbatim>\<open>d[key] = value\<close> on a dictionary: an existing key keeps its place.\<close>

fun dict_set :: "json \<Rightarrow> string \<Rightarrow> json \<Rightarrow> error + json" where
  "dict_set (JObj kvs) k v = Inr (JObj (AList.update k v kvs))"
| "dict_set _ k v = Inl TypeError"

text \<open>\<^verbatim>\<open>for x in v\<close>: a list yields its elements, a dictionary its keys, a string its
  characters; \<^verbatim>\<open>None\<close>, booleans and numbers are not iterable.\<close>

fun py_iter :: "json \<Rightarrow> error + json list" where
  "py_iter (JArr xs) = Inr xs"
| "py_iter (JObj kvs) = Inr (map (\<lambda>kv. JStr (fst kv)) kvs)"
| "py_iter (JStr s) = Inr (map (\<lambda>c. JStr [c]) s)"
| "py_iter _ = Inl TypeError"

text \<open>\<^verbatim>\<open>x >= n\<close> for an integer \<open>n\<close>: defined on numbers and booleans only.\<close>

fun py_ge :: "json \<Rightarrow> int \<Rightarrow> error + bool" where
  "py_ge (JNum m) n = Inr (m \<ge> n)"
| "py_ge (JBool b) n = Inr ((if b then 1 else 0) \<ge> n)"
| "py_ge _ n = Inl TypeError"

section \<open>The remote service as seen through \<^verbatim>\<open>requests\<close>\<close>

text \<open>
  A response carries its status code and its body, \<open>None\<close> when the body is not JSON.
  The upstream state maps a URL and the query parameters to what \<^verbatim>\<open>requests.get\<close>
  does there: \<open>None\<close> when the call raises (timeout, connection refused, invalid URL),
  the final response otherwise. The fixed \<^verbatim>\<open>HEADERS\<close> are part of the upstream state.
\<close>

record response =
  status_code :: nat
  body :: "json option"

type_synonym upstream = "string \<Rightarrow> (string \<times> string) list \<Rightarrow> response option"

text \<open>\<^verbatim>\<open>requests.get(url, headers=HEADERS, params=...)\<close>. The URL read from an issue can
  be any value; one that is not a string is turned into text that names no HTTP URL, and the
  call raises (\<^verbatim>\<open>MissingSchema\<close> or \<^verbatim>\<open>InvalidSchema\<close>).\<close>

fun requests_get :: "upstream \<Rightarrow> json \<Rightarrow> (string \<times> string) list \<Rightarrow> error + response" where
  "requests_get up (JStr url) params =
     (case up url params of None \<Rightarrow> Inl RequestException | Some r \<Rightarrow> Inr r)"
| "requests_get up _ params = Inl RequestException"

text \<open>\<^verbatim>\<open>response.raise_for_status()\<close> raises \<^verbatim>\<open>HTTPError\<close> for the statuses 400 to 599.\<close>

definition raise_for_status :: "response \<Rightarrow> error + unit" where
  "raise_for_status r =
     (if 400 \<le> status_code r \<and> status_code r < 600 then Inl RequestException else Inr ())"

definition response_json :: "response \<Rightarrow> error + json" where
  "response_json r = (case body r of None \<Rightarrow> Inl RequestException | Some v \<Rightarrow> Inr v)"

section \<open>Remote fetchers and the assignment reconstructor\<close>

text \<open>The loop of \<^verbatim>\<open>check_issue_assignment_events\<close> over the events, threading
  \<^verbatim>\<open>assignment_info\<close> (a \<^verbatim>\<open>defaultdict(str)\<close>, only ever written).\<close>

fun assignment_loop :: "json list \<Rightarrow> (string \<times> json) list \<Rightarrow> error + (string \<times> json) list" where
  "assignment_loop [] info = Inr info"
| "assignment_loop (event # events) info =
     and_then (dict_get event ''event'' JNull) (\<lambda>kind.
       if py_eq kind (JStr ''assigned'') then
         and_then (dict_get event ''assignee'' (JObj [])) (\<lambda>assignee.
         and_then (dict_get assignee ''login'' (JStr [])) (\<lambda>login.
         and_then (dict_get event ''created_at'' (JStr [])) (\<lambda>created_at.
           assignment_loop events
             (AList.update ''assigned_at'' created_at (AList.update ''assignee'' login info)))))
       else assignment_loop events info)"

text \<open>The first statements of the \<^verbatim>\<open>try\<close> block of
  \<^verbatim>\<open>check_issue_assignment_events\<close>: the events of the issue as the service returns
  them.\<close>

definition fetch_events :: "upstream \<Rightarrow> json \<Rightarrow> error + json" where
  "fetch_events up issue =
     and_then (dict_get issue ''events_url'' (JStr [])) (\<lambda>events_url.
     and_then (requests_get up events_url []) (\<lambda>response.
     and_then (raise_for_status response) (\<lambda>_.
       response_json response)))"

definition check_issue_assignment_events :: "upstream \<Rightarrow> json \<Rightarrow> error + json" where
  "check_issue_assignment_events up issue =
     except_RequestException
       (and_then (fetch_events up issue) (\<lambda>events.
        and_then (py_iter events) (\<lambda>events.
        and_then (assignment_loop events []) (\<lambda>assignment_info.
          Inr (JObj assignment_info)))))
       (JObj [])"

text \<open>The predicate of the \<^verbatim>\<open>filter\<close> in \<^verbatim>\<open>get_all_open_and_assigned_issues\<close>.\<close>

definition open_assigned :: "json \<Rightarrow> error + bool" where
  "open_assigned issue =
     and_then (dict_get issue ''state'' JNull) (\<lambda>state.
       if \<not> py_eq state (JStr ''open'') then Inr False
       else and_then (dict_get issue ''assignee'' JNull) (\<lambda>assignee.
         if \<not> truthy assignee then Inr False
         else and_then (dict_get issue ''draft'' JNull) (\<lambda>draft.
           if truthy draft then Inr False
           else and_then (dict_get issue ''pull_request'' JNull) (\<lambda>pull_request.
             Inr (\<not> truthy pull_request)))))"

text \<open>\<^verbatim>\<open>list(filter(p, xs))\<close> for a predicate that may raise.\<close>

fun filter_raising :: "('a \<Rightarrow> error + bool) \<Rightarrow> 'a list \<Rightarrow> error + 'a list" where
  "filter_raising p [] = Inr []"
| "filter_raising p (x # xs) =
     and_then (p x) (\<lambda>keep.
     and_then (filter_raising p xs) (\<lambda>rest.
       Inr (if keep then x # rest else rest)))"

definition get_all_open_and_assigned_issues :: "upstream \<Rightarrow> string \<Rightarrow> error + json list" where
  "get_all_open_and_assigned_issues up url =
     except_RequestException
       (and_then (requests_get up (JStr url) []) (\<lambda>response.
        and_then (raise_for_status response) (\<lambda>_.
        and_then (response_json response) (\<lambda>issues.
        and_then (py_iter issues) (\<lambda>issues.
          filter_raising open_assigned issues)))))
       []"

definition get_all_open_pull_requests :: "upstream \<Rightarrow> string \<Rightarrow> error + json" where
  "get_all_open_pull_requests up url =
     except_RequestException
       (and_then (requests_get up (JStr url) [(''state'', ''open'')]) (\<lambda>response.
        and_then (raise_for_status response) (\<lambda>_.
          response_json response)))
       (JArr [])"

section \<open>Dates and times\<close>

text \<open>
  The parts of Python's \<^verbatim>\<open>datetime\<close> and of \<^verbatim>\<open>dateutil.relativedelta\<close> that the
  tracker uses, written after the libraries' own (pure Python) code. A datetime holds its
  calendar fields; the ones that occur here are naive or all in UTC, so the time zone plays
  no part in their arithmetic.
\<close>

record datetime =
  year :: int
  month :: int
  day :: int
  hour :: int
  minute :: int
  second :: int
  microsecond :: int

definition is_leap :: "int \<Rightarrow> bool" where
  "is_leap y = (y mod 4 = 0 \<and> (y mod 100 \<noteq> 0 \<or> y mod 400 = 0))"

text \<open>\<^verbatim>\<open>calendar.monthrange(y, m)[1]\<close>, the length of a month.\<close>

definition days_in_month :: "int \<Rightarrow> int \<Rightarrow> int" where
  "days_in_month y m =
     (if m = 2 then (if is_leap y then 29 else 28)
      else if m = 4 \<or> m = 6 \<or> m = 9 \<or> m = 11 then 30 else 31)"

definition days_before_year :: "int \<Rightarrow> int" where
  "days_before_year y = (let p = y - 1 in p * 365 + p div 4 - p div 100 + p div 400)"

definition days_before_month :: "int \<Rightarrow> int \<Rightarrow> int" where
  "days_before_month y m = sum_list (map (days_in_month y) [1..m - 1])"

text \<open>\<^verbatim>\<open>datetime.toordinal()\<close>: the day number, 1 for 0001-01-01.\<close>

definition toordinal :: "datetime \<Rightarrow> int" where
  "toordinal dt = days_before_year (year dt) + days_before_month (year dt) (month dt) + day dt"

text \<open>A valid datetime, as the constructor of \<^verbatim>\<open>datetime\<close> checks it.\<close>

definition valid_datetime :: "datetime \<Rightarrow> bool" where
  "valid_datetime dt =
     (1 \<le> year dt \<and> year dt \<le> 9999 \<and> 1 \<le> month dt \<and> month dt \<le> 12 \<and>
      1 \<le> day dt \<and> day dt \<le> days_in_month (year dt) (month dt) \<and>
      0 \<le> hour dt \<and> hour dt \<le> 23 \<and> 0 \<le> minute dt \<and> minute dt \<le> 59 \<and>
      0 \<le> second dt \<and> second dt \<le> 59 \<and> 0 \<le> microsecond dt \<and> microsecond dt \<le> 999999)"

text \<open>Comparison of datetimes compares the tuples of their fields.\<close>

definition dt_tuple :: "datetime \<Rightarrow> int \<times> int \<times> int \<times> int \<times> int \<times> int \<times> int" where
  "dt_tuple dt = (year dt, month dt, day dt, hour dt, minute dt, second dt, microsecond dt)"

definition dt_less :: "datetime \<Rightarrow> datetime \<Rightarrow> bool" where
  "dt_less a b = (dt_tuple a < dt_tuple b)"

text \<open>A \<^verbatim>\<open>timedelta\<close> is kept normalised: \<open>0 \<le> seconds < 86400\<close> and
  \<open>0 \<le> microseconds < 1000000\<close>, the sign is in the days.\<close>

record timedelta =
  td_days :: int
  td_seconds :: int
  td_microseconds :: int

definition timedelta :: "int \<Rightarrow> int \<Rightarrow> int \<Rightarrow> timedelta" where
  "timedelta d s us =
     (let total = (d * 86400 + s) * 1000000 + us
      in \<lparr>td_days = total div 86400000000,
          td_seconds = (total div 1000000) mod 86400,
          td_microseconds = total mod 1000000\<rparr>)"

text \<open>\<^verbatim>\<open>a - b\<close> for two datetimes.\<close>

definition dt_sub :: "datetime \<Rightarrow> datetime \<Rightarrow> timedelta" where
  "dt_sub a b =
     timedelta (toordinal a - toordinal b)
       ((second a + minute a * 60 + hour a * 3600) - (second b + minute b * 60 + hour b * 3600))
       (microsecond a - microsecond b)"

subsection \<open>\<^verbatim>\<open>dateutil.relativedelta\<close>\<close>

record relativedelta =
  rd_years :: int
  rd_months :: int
  rd_days :: int
  rd_hours :: int
  rd_minutes :: int
  rd_seconds :: int
  rd_microseconds :: int

text \<open>\<^verbatim>\<open>_set_months\<close>: the years and months of a number of months.\<close>

definition set_months :: "int \<Rightarrow> int \<times> int" where
  "set_months m =
     (if \<bar>m\<bar> > 11 then (let s = sgn m in (((m * s) div 12) * s, ((m * s) mod 12) * s))
      else (0, m))"

text \<open>\<^verbatim>\<open>__radd__\<close> of a relativedelta that holds years and months only: the date
  moved by whole months, its day cut to the length of the month reached.\<close>

definition radd :: "int \<times> int \<Rightarrow> datetime \<Rightarrow> datetime" where
  "radd ym other =
     (let y = year other + fst ym;
          m = month other;
          y' = (if snd ym \<noteq> 0 then
                  (if m + snd ym > 12 then y + 1 else if m + snd ym < 1 then y - 1 else y)
                else y);
          m' = (if snd ym \<noteq> 0 then
                  (if m + snd ym > 12 then m + snd ym - 12
                   else if m + snd ym < 1 then m + snd ym + 12 else m + snd ym)
                else m);
          d = min (days_in_month y' m') (day other)
      in other\<lparr>year := y', month := m', day := d\<rparr>)"

text \<open>The loop of the constructor that takes back a month too many:
  \<^verbatim>\<open>while compare(dt1, dtm): months += increment\<close>, where the comparison is \<^verbatim>\<open>>\<close> and
  the increment 1 when \<open>dt1 < dt2\<close>, and \<^verbatim>\<open><\<close> and -1 otherwise.\<close>

function rd_adjust :: "bool \<Rightarrow> datetime \<Rightarrow> datetime \<Rightarrow> int \<Rightarrow> int" where
  "rd_adjust up dt1 dt2 months =
     (if up then
        (if dt_less (radd (set_months months) dt2) dt1
         then rd_adjust up dt1 dt2 (months + 1) else months)
      else
        (if dt_less dt1 (radd (set_months months) dt2)
         then rd_adjust up dt1 dt2 (months - 1) else months))"
  by pat_completeness auto

text \<open>The loop ends: each month added moves the year of \<open>dtm\<close> towards that of
  \<open>dt1\<close> and past it after finitely many steps.\<close>

lemma set_months_sum: "fst (set_months t) * 12 + snd (set_months t) = t"
proof -
  consider "t > 11" | "t < -11" | "\<bar>t\<bar> \<le> 11" by linarith
  then show ?thesis
  proof cases
    case 1
    then show ?thesis by (simp add: set_months_def Let_def)
  next
    case 2
    have e: "(- t) div 12 * 12 + (- t) mod 12 = - t" by (rule div_mult_mod_eq)
    from 2 have "set_months t = (- ((- t) div 12), - ((- t) mod 12))"
      by (simp add: set_months_def Let_def)
    with e show ?thesis by (simp only: fst_conv snd_conv)
  next
    case 3
    then show ?thesis by (simp add: set_months_def)
  qed
qed

lemma set_months_snd_bound: "\<bar>snd (set_months t)\<bar> \<le> 11"
proof -
  consider "t > 11" | "t < -11" | "\<bar>t\<bar> \<le> 11" by linarith
  then show ?thesis
  proof cases
    case 1
    have "0 \<le> t mod 12" "t mod 12 < 12" by simp_all
    with 1 show ?thesis by (simp add: set_months_def Let_def)
  next
    case 2
    have "0 \<le> (- t) mod 12" "(- t) mod 12 < 12" by simp_all
    with 2 show ?thesis by (simp add: set_months_def Let_def)
  next
    case 3
    then show ?thesis by (simp add: set_months_def)
  qed
qed

lemma radd_year_bounds:
  "12 * year dt + t - 23 \<le> 12 * year (radd (set_months t) dt)"
  "12 * year (radd (set_months t) dt) \<le> 12 * year dt + t + 23"
  using set_months_sum [of t] set_months_snd_bound [of t]
  by (auto simp: radd_def Let_def)

lemma dt_less_year: "dt_less a b \<Longrightarrow> year a \<le> year b"
  by (auto simp: dt_less_def dt_tuple_def less_prod_def)

termination rd_adjust
proof (relation "measure (\<lambda>(up, dt1, dt2, months).
         nat (if up then 12 * (year dt1 - year dt2) + 24 - months
              else months - (12 * (year dt1 - year dt2) - 24)))")
  show "wf (measure (\<lambda>(up, dt1, dt2, months).
         nat (if up then 12 * (year dt1 - year dt2) + 24 - months
              else months - (12 * (year dt1 - year dt2) - 24))))" by simp
next
  fix up :: bool and dt1 dt2 :: datetime and months :: int
  assume "up" and l: "dt_less (radd (set_months months) dt2) dt1"
  from dt_less_year [OF l] radd_year_bounds(1) [where dt = dt2 and t = months]
  show "((up, dt1, dt2, months + 1), up, dt1, dt2, months) \<in> measure (\<lambda>(up, dt1, dt2, months).
         nat (if up then 12 * (year dt1 - year dt2) + 24 - months
              else months - (12 * (year dt1 - year dt2) - 24)))"
    using \<open>up\<close> by simp
next
  fix up :: bool and dt1 dt2 :: datetime and months :: int
  assume "\<not> up" and l: "dt_less dt1 (radd (set_months months) dt2)"
  from dt_less_year [OF l] radd_year_bounds(2) [where dt = dt2 and t = months]
  show "((up, dt1, dt2, months - 1), up, dt1, dt2, months) \<in> measure (\<lambda>(up, dt1, dt2, months).
         nat (if up then 12 * (year dt1 - year dt2) + 24 - months
              else months - (12 * (year dt1 - year dt2) - 24)))"
    using \<open>\<not> up\<close> by simp
qed

declare rd_adjust.simps [simp del]

text \<open>\<^verbatim>\<open>_fix\<close> carries what exceeds a unit into the next one, keeping the sign:
  microseconds into seconds, seconds into minutes, minutes into hours, hours into days and
  months into years. Days are not carried into months.\<close>

definition carry :: "int \<Rightarrow> int \<Rightarrow> int \<Rightarrow> int \<times> int" where
  "carry base low high =
     (if \<bar>low\<bar> > base - 1
      then (let s = sgn low in (((low * s) mod base) * s, high + ((low * s) div base) * s))
      else (low, high))"

definition fix_rd :: "relativedelta \<Rightarrow> relativedelta" where
  "fix_rd r =
     (let (us, s) = carry 1000000 (rd_microseconds r) (rd_seconds r);
          (s, mi) = carry 60 s (rd_minutes r);
          (mi, h) = carry 60 mi (rd_hours r);
          (h, d) = carry 24 h (rd_days r);
          (mo, y) = carry 12 (rd_months r) (rd_years r)
      in \<lparr>rd_years = y, rd_months = mo, rd_days = d, rd_hours = h, rd_minutes = mi,
          rd_seconds = s, rd_microseconds = us\<rparr>)"

text \<open>\<^verbatim>\<open>relativedelta(dt1, dt2)\<close>: the whole months from \<open>dt2\<close> towards \<open>dt1\<close>, and
  what is left after them as days, hours, minutes, seconds and microseconds.\<close>

definition relativedelta :: "datetime \<Rightarrow> datetime \<Rightarrow> relativedelta" where
  "relativedelta dt1 dt2 =
     (let months = (year dt1 - year dt2) * 12 + (month dt1 - month dt2);
          months = rd_adjust (dt_less dt1 dt2) dt1 dt2 months;
          dtm = radd (set_months months) dt2;
          delta = dt_sub dt1 dtm
      in fix_rd \<lparr>rd_years = fst (set_months months), rd_months = snd (set_months months),
                 rd_days = 0, rd_hours = 0, rd_minutes = 0,
                 rd_seconds = td_seconds delta + td_days delta * 86400,
                 rd_microseconds = td_microseconds delta\<rparr>)"

text \<open>The truth value of a relativedelta: some field is not zero.\<close>

definition rd_bool :: "relativedelta \<Rightarrow> bool" where
  "rd_bool r =
     (rd_years r \<noteq> 0 \<or> rd_months r \<noteq> 0 \<or> rd_days r \<noteq> 0 \<or> rd_hours r \<noteq> 0 \<or>
      rd_minutes r \<noteq> 0 \<or> rd_seconds r \<noteq> 0 \<or> rd_microseconds r \<noteq> 0)"

subsection \<open>\<^verbatim>\<open>datetime.strptime(s, "%Y-%m-%dT%H:%M:%SZ")\<close>\<close>

text \<open>
  The format is matched as a regular expression over the whole string: four digits for the
  year, one or two for each other field (the day may also be a space and a digit), the
  separators \<open>-\<close>, \<open>T\<close>, \<open>:\<close> and \<open>Z\<close> (letters in either case). Strings are ASCII
  here. A string that does not match, or names no date, raises \<^verbatim>\<open>ValueError\<close>; an
  argument that is not a string raises \<^verbatim>\<open>TypeError\<close>.
\<close>

definition is_digit :: "char \<Rightarrow> bool" where
  "is_digit c = (c \<in> set ''0123456789'')"

definition digit_value :: "char \<Rightarrow> int" where
  "digit_value c = int (of_char c) - 48"

definition number_of_digits :: "string \<Rightarrow> int" where
  "number_of_digits ds = foldl (\<lambda>n c. 10 * n + digit_value c) 0 ds"

text \<open>A field of digits with one of the lengths \<open>lens\<close> and a value from \<open>lo\<close> to
  \<open>hi\<close>, followed by one of the separators \<open>seps\<close>: its value and the rest.\<close>

definition digits_then :: "nat list \<Rightarrow> int \<Rightarrow> int \<Rightarrow> string \<Rightarrow> string \<Rightarrow> (int \<times> string) option" where
  "digits_then lens lo hi seps s =
     (let ds = takeWhile is_digit s; n = number_of_digits ds
      in if length ds \<in> set lens \<and> lo \<le> n \<and> n \<le> hi then
           (case dropWhile is_digit s of
              [] \<Rightarrow> None
            | c # rest \<Rightarrow> if c \<in> set seps then Some (n, rest) else None)
         else None)"

definition strptime_match :: "string \<Rightarrow> datetime option" where
  "strptime_match s =
     Option.bind (digits_then [4] 0 9999 ''-'' s) (\<lambda>(Y, s).
     Option.bind (digits_then [1, 2] 1 12 ''-'' s) (\<lambda>(m, s).
     Option.bind (case s of
                    [] \<Rightarrow> None
                  | c # s' \<Rightarrow> if c = CHR '' '' then digits_then [1] 1 9 ''Tt'' s'
                              else digits_then [1, 2] 1 31 ''Tt'' s) (\<lambda>(d, s).
     Option.bind (digits_then [1, 2] 0 23 '':'' s) (\<lambda>(H, s).
     Option.bind (digits_then [1, 2] 0 59 '':'' s) (\<lambda>(M, s).
     Option.bind (digits_then [1, 2] 0 61 ''Zz'' s) (\<lambda>(S, s).
       if s = [] then
         Some \<lparr>year = Y, month = m, day = d, hour = H, minute = M, second = S,
               microsecond = 0\<rparr>
       else None))))))"

definition strptime :: "json \<Rightarrow> error + datetime" where
  "strptime v =
     (case v of
        JStr s \<Rightarrow>
          (case strptime_match s of
             None \<Rightarrow> Inl ValueError
           | Some dt \<Rightarrow> if valid_datetime dt then Inr dt else Inl ValueError)
      | _ \<Rightarrow> Inl TypeError)"

subsection \<open>Integers as text\<close>

fun str_nat :: "nat \<Rightarrow> string" where
  "str_nat n =
     (if n < 10 then [''0123456789'' ! n]
      else str_nat (n div 10) @ [''0123456789'' ! (n mod 10)])"

declare str_nat.simps [simp del]

text \<open>\<^verbatim>\<open>str(i)\<close>, as an f-string formats an integer.\<close>

definition py_str_int :: "int \<Rightarrow> string" where
  "py_str_int i = (if i < 0 then CHR ''-'' # str_nat (nat (- i)) else str_nat (nat i))"

section \<open>The compliance correlator\<close>

text \<open>
  One round of the first loop of \<^verbatim>\<open>get_issues_without_pull_requests\<close>: the issue is
  annotated with its assignment info and with the days since its assignment. \<open>now\<close> is
  what \<^verbatim>\<open>datetime.now()\<close> returns in this round (the local time, without a zone); the
  value \<^verbatim>\<open>str()\<close> of \<^verbatim>\<open>time_delta\<close> for an unknown assignment is \<open>None\<close> here.
\<close>

definition annotate_issue :: "upstream \<Rightarrow> datetime \<Rightarrow> json \<Rightarrow> error + json" where
  "annotate_issue up now issue =
     and_then (check_issue_assignment_events up issue) (\<lambda>info.
     and_then (dict_set issue ''assignment_info'' info) (\<lambda>issue.
     and_then (dict_get issue ''assignment_info'' (JObj [])) (\<lambda>info.
     and_then (dict_get info ''assigned_at'' JNull) (\<lambda>assigned_at.
     and_then (if truthy assigned_at
               then and_then (strptime assigned_at) (\<lambda>dt2. Inr (Some (relativedelta now dt2)))
               else Inr None) (\<lambda>time_delta.
       dict_set issue ''days''
         (JNum (case time_delta of
                  Some td \<Rightarrow> if rd_bool td then rd_days td else 0
                | None \<Rightarrow> 0)))))))"

text \<open>The first loop. The issues are separate objects, so updating one in place is
  replacing it in the list; \<open>clock i\<close> is the time read while issue \<open>i\<close> is handled. An
  exception ends the whole pass.\<close>

fun annotate_loop :: "upstream \<Rightarrow> (nat \<Rightarrow> datetime) \<Rightarrow> nat \<Rightarrow> json list \<Rightarrow> error + json list" where
  "annotate_loop up clock i [] = Inr []"
| "annotate_loop up clock i (issue # issues) =
     and_then (annotate_issue up (clock i) issue) (\<lambda>issue'.
     and_then (annotate_loop up clock (Suc i) issues) (\<lambda>rest.
       Inr (issue' # rest)))"

text \<open>The list comprehension \<^verbatim>\<open>pull_requests_users\<close>: the logins of the authors of the
  pull requests, those that are empty or missing left out.\<close>

fun users_loop :: "json list \<Rightarrow> error + json list" where
  "users_loop [] = Inr []"
| "users_loop (pull_request # rest) =
     and_then (dict_get pull_request ''user'' (JObj [])) (\<lambda>user.
     and_then (dict_get user ''login'' JNull) (\<lambda>login.
     and_then (users_loop rest) (\<lambda>logins.
       Inr (if truthy login then login # logins else logins))))"

definition pull_requests_users :: "json \<Rightarrow> error + json list" where
  "pull_requests_users pull_requests = and_then (py_iter pull_requests) users_loop"

text \<open>The condition of the second loop, with the short cut of \<^verbatim>\<open>and\<close>: the assignee
  is only looked at when the days are at least one.\<close>

definition non_compliant :: "json list \<Rightarrow> json \<Rightarrow> error + bool" where
  "non_compliant users issue =
     and_then (dict_get issue ''days'' (JNum 0)) (\<lambda>days.
     and_then (py_ge days 1) (\<lambda>late.
       if \<not> late then Inr False
       else and_then (dict_get issue ''assignee'' (JObj [])) (\<lambda>assignee.
            and_then (dict_get assignee ''login'' JNull) (\<lambda>login.
              Inr (\<not> py_in login users)))))"

definition get_issues_without_pull_requests ::
    "upstream \<Rightarrow> (nat \<Rightarrow> datetime) \<Rightarrow> string \<Rightarrow> string \<Rightarrow> error + json list" where
  "get_issues_without_pull_requests up clock issues_url pull_requests_url =
     and_then (get_all_open_and_assigned_issues up issues_url) (\<lambda>issues.
     and_then (annotate_loop up clock 0 issues) (\<lambda>issues.
     and_then (get_all_open_pull_requests up pull_requests_url) (\<lambda>pull_requests.
     and_then (pull_requests_users pull_requests) (\<lambda>users.
       filter_raising (non_compliant users) issues))))"

section \<open>Deadline arithmetic\<close>

text \<open>\<^verbatim>\<open>get_time_before_deadline\<close> returns its message and leaves the issue updated;
  \<open>now\<close> is \<^verbatim>\<open>datetime.now(timezone.utc)\<close>.\<close>

definition get_time_before_deadline :: "upstream \<Rightarrow> datetime \<Rightarrow> json \<Rightarrow> error + string \<times> json" where
  "get_time_before_deadline up now issue =
     and_then (check_issue_assignment_events up issue) (\<lambda>assignment_info.
     and_then (dict_get assignment_info ''assigned_at'' JNull) (\<lambda>assigned_at.
       if \<not> truthy assigned_at then Inr (''This issue is not assigned.'', issue)
       else and_then (dict_get issue ''due_on'' JNull) (\<lambda>deadline_str.
         if \<not> truthy deadline_str then Inr (''No deadline set for this issue.'', issue)
         else and_then (strptime deadline_str) (\<lambda>deadline_datetime.
           let time_left = dt_sub deadline_datetime now in
           and_then (if truthy assigned_at
                     then and_then (strptime assigned_at) (\<lambda>assigned_time.
                            dict_set issue ''assigned_days''
                              (JNum (rd_days (relativedelta now assigned_time))))
                     else dict_set issue ''assigned_days'' (JNum 0)) (\<lambda>issue.
             Inr (if td_days time_left > 0
                  then py_str_int (td_days time_left) @ '' days remaining''
                  else if td_seconds time_left > 0
                  then py_str_int (td_seconds time_left div 3600) @ '' hours '' @
                       py_str_int ((td_seconds time_left mod 3600) div 60) @
                       '' minutes remaining''
                  else ''Deadline has passed.'', issue))))))"

section \<open>Issues, events and responses as the properties read them\<close>

text \<open>The elapsed days recorded on an issue, and the login of its assignee
  (\<^verbatim>\<open>issue.get("assignee", dict()).get("login")\<close> where that does not raise).\<close>

definition issue_days :: "json \<Rightarrow> int" where
  "issue_days issue =
     (case issue of
        JObj kvs \<Rightarrow> (case map_of kvs ''days'' of Some (JNum d) \<Rightarrow> d | _ \<Rightarrow> 0)
      | _ \<Rightarrow> 0)"

definition assignee_login :: "json \<Rightarrow> json" where
  "assignee_login issue =
     (case issue of
        JObj kvs \<Rightarrow>
          (case map_of kvs ''assignee'' of
             Some (JObj a) \<Rightarrow> (case map_of a ''login'' of Some l \<Rightarrow> l | None \<Rightarrow> JNull)
           | _ \<Rightarrow> JNull)
      | _ \<Rightarrow> JNull)"

text \<open>The elapsed days that the correlator computes from the timestamp of the
  assignment: none for an empty timestamp, otherwise the \<^verbatim>\<open>days\<close> of the relativedelta
  from the timestamp to the current time.\<close>

definition elapsed_days :: "datetime \<Rightarrow> json \<Rightarrow> error + int" where
  "elapsed_days now assigned_at =
     (if truthy assigned_at
      then and_then (strptime assigned_at) (\<lambda>dt2. Inr (rd_days (relativedelta now dt2)))
      else Inr 0)"

text \<open>The last statement of \<^verbatim>\<open>get_time_before_deadline\<close>, the message for the
  time left, and an issue with its elapsed days recorded
  (\<^verbatim>\<open>issue["assigned_days"] = d\<close>).\<close>

definition time_left_message :: "timedelta \<Rightarrow> string" where
  "time_left_message time_left =
     (if td_days time_left > 0
      then py_str_int (td_days time_left) @ '' days remaining''
      else if td_seconds time_left > 0
      then py_str_int (td_seconds time_left div 3600) @ '' hours '' @
           py_str_int ((td_seconds time_left mod 3600) div 60) @ '' minutes remaining''
      else ''Deadline has passed.'')"

definition with_assigned_days :: "json \<Rightarrow> int \<Rightarrow> json" where
  "with_assigned_days issue d =
     (case issue of
        JObj kvs \<Rightarrow> JObj (AList.update ''assigned_days'' (JNum d) kvs)
      | _ \<Rightarrow> issue)"


definition field :: "json \<Rightarrow> string \<Rightarrow> json option" where
  "field v k = (case v of JObj kvs \<Rightarrow> map_of kvs k | _ \<Rightarrow> None)"

text \<open>The timestamp in an assignment info (\<^verbatim>\<open>info.get("assigned_at")\<close>), and an issue
  with its two annotations written (\<^verbatim>\<open>issue["assignment_info"] = info\<close>, then
  \<^verbatim>\<open>issue["days"] = d\<close>).\<close>

definition info_assigned_at :: "json \<Rightarrow> json" where
  "info_assigned_at info = (case field info ''assigned_at'' of Some t \<Rightarrow> t | None \<Rightarrow> JNull)"

definition with_annotations :: "json \<Rightarrow> json \<Rightarrow> int \<Rightarrow> json" where
  "with_annotations issue info d =
     (case issue of
        JObj kvs \<Rightarrow>
          JObj (AList.update ''days'' (JNum d) (AList.update ''assignment_info'' info kvs))
      | _ \<Rightarrow> issue)"

text \<open>Events: the kind \<open>assigned\<close>, the last such event of a sequence, and its assignee
  handle and timestamp (empty where the event has none).\<close>

definition is_assigned :: "json \<Rightarrow> bool" where
  "is_assigned e = (field e ''event'' = Some (JStr ''assigned''))"

definition last_assigned :: "json list \<Rightarrow> json option" where
  "last_assigned events =
     (case filter is_assigned events of [] \<Rightarrow> None | e # es \<Rightarrow> Some (last (e # es)))"

definition event_login :: "json \<Rightarrow> json" where
  "event_login e =
     (case field e ''assignee'' of
        None \<Rightarrow> JStr []
      | Some a \<Rightarrow> (case field a ''login'' of None \<Rightarrow> JStr [] | Some l \<Rightarrow> l))"

definition event_time :: "json \<Rightarrow> json" where
  "event_time e = (case field e ''created_at'' of None \<Rightarrow> JStr [] | Some t \<Rightarrow> t)"

definition is_object :: "json \<Rightarrow> bool" where
  "is_object v = (case v of JObj _ \<Rightarrow> True | _ \<Rightarrow> False)"

text \<open>An event of the expected shape: an object, whose assignee is an object when the
  event is an assignment and names one.\<close>

definition well_formed_event :: "json \<Rightarrow> bool" where
  "well_formed_event e =
     (is_object e \<and>
      (if is_assigned e
       then (case field e ''assignee'' of None \<Rightarrow> True | Some a \<Rightarrow> is_object a)
       else True))"

text \<open>The assignment that a sequence of events stands for, in the words of the
  specification: handle and timestamp of the last assignment, nothing when there is none.\<close>

definition last_assignment :: "json list \<Rightarrow> json" where
  "last_assignment events =
     (case last_assigned events of
        None \<Rightarrow> JObj []
      | Some e \<Rightarrow> JObj [(''assignee'', event_login e), (''assigned_at'', event_time e)])"

text \<open>A transport failure of a request: the call raises, the status is an error status
  (400 to 599), or the body is not JSON.\<close>

definition transport_failure :: "response option \<Rightarrow> bool" where
  "transport_failure r =
     (case r of
        None \<Rightarrow> True
      | Some r \<Rightarrow> (400 \<le> status_code r \<and> status_code r < 600) \<or> body r = None)"






section \<open>A repository to run the code on\<close>

text \<open>
  The repository \<open>acme/widget\<close> on 2024-05-04 at 10:00. Alice was assigned three days
  ago (after Bob, two days before her) and has no open pull request; Bob was assigned two
  days ago and has one; Carol was assigned this very moment; the service returns no events
  for Dave's issue. A closed issue and a pull request are listed among the issues too.
\<close>

definition mk_issue :: "string \<Rightarrow> string \<Rightarrow> string \<Rightarrow> string \<Rightarrow> json" where
  "mk_issue title state login events_url =
     JObj [(''title'', JStr title), (''state'', JStr state),
           (''assignee'', JObj [(''login'', JStr login)]), (''events_url'', JStr events_url)]"

definition mk_assigned :: "string \<Rightarrow> string \<Rightarrow> json" where
  "mk_assigned login created_at =
     JObj [(''event'', JStr ''assigned''), (''assignee'', JObj [(''login'', JStr login)]),
           (''created_at'', JStr created_at)]"

definition issue_alice :: json where
  "issue_alice = mk_issue ''Fix the parser'' ''open'' ''alice'' ''events/1''"

definition issue_bob :: json where
  "issue_bob = mk_issue ''Add a cache'' ''open'' ''bob'' ''events/2''"

definition issue_carol :: json where
  "issue_carol = mk_issue ''Write the docs'' ''open'' ''carol'' ''events/3''"

definition issue_dave :: json where
  "issue_dave = mk_issue ''Tune the build'' ''open'' ''dave'' ''events/4''"

definition issue_closed :: json where
  "issue_closed = mk_issue ''Old bug'' ''closed'' ''alice'' ''events/5''"

definition issue_pull :: json where
  "issue_pull =
     JObj [(''title'', JStr ''A pull request''), (''state'', JStr ''open''),
           (''assignee'', JObj [(''login'', JStr ''bob'')]), (''events_url'', JStr ''events/6''),
           (''pull_request'', JObj [(''url'', JStr ''pulls/6'')])]"

definition events_alice :: "json list" where
  "events_alice =
     [JObj [(''event'', JStr ''labeled''), (''created_at'', JStr ''2024-04-28T08:00:00Z'')],
      mk_assigned ''bob'' ''2024-04-29T09:00:00Z'',
      mk_assigned ''alice'' ''2024-05-01T09:00:00Z'',
      JObj [(''event'', JStr ''mentioned''), (''created_at'', JStr ''2024-05-02T08:00:00Z'')]]"

definition ok :: "json \<Rightarrow> response option" where
  "ok v = Some \<lparr>status_code = 200, body = Some v\<rparr>"

definition acme_widget :: upstream where
  "acme_widget url params =
     (if url = ''issues'' \<and> params = [] then
        ok (JArr [issue_alice, issue_closed, issue_bob, issue_pull, issue_carol, issue_dave])
      else if url = ''pulls'' \<and> params = [(''state'', ''open'')] then
        ok (JArr [JObj [(''title'', JStr ''Cache''), (''user'', JObj [(''login'', JStr ''bob'')])]])
      else if url = ''events/1'' \<and> params = [] then ok (JArr events_alice)
      else if url = ''events/2'' \<and> params = [] then
        ok (JArr [mk_assigned ''bob'' ''2024-05-02T07:30:00Z''])
      else if url = ''events/3'' \<and> params = [] then
        ok (JArr [mk_assigned ''carol'' ''2024-05-04T10:00:00Z''])
      else if url = ''events/4'' \<and> params = [] then ok (JArr [])
      else None)"

definition may_4th :: datetime where
  "may_4th = \<lparr>year = 2024, month = 5, day = 4, hour = 10, minute = 0, second = 0,
              microsecond = 0\<rparr>"

definition mk_info :: "string \<Rightarrow> string \<Rightarrow> json" where
  "mk_info login created_at =
     JObj [(''assignee'', JStr login), (''assigned_at'', JStr created_at)]"

text \<open>A clock that stands still during the pass.\<close>

definition always :: "datetime \<Rightarrow> nat \<Rightarrow> datetime" where
  "always t i = t"



text \<open>Alice's issue with a deadline: two hours less a minute after the pass in the first
  case, one hour before it in the second.\<close>

definition with_due_on :: "json \<Rightarrow> string \<Rightarrow> json" where
  "with_due_on issue due =
     (case issue of JObj kvs \<Rightarrow> JObj (kvs @ [(''due_on'', JStr due)]) | _ \<Rightarrow> issue)"

definition issue_due :: json where
  "issue_due = with_due_on issue_alice ''2024-05-04T11:59:00Z''"

definition issue_overdue :: json where
  "issue_overdue = with_due_on issue_alice ''2024-05-04T09:00:00Z''"

text \<open>A repository whose one issue was assigned to Erin a month before the pass, to the
  minute; no pull request is open.\<close>

definition issue_erin :: json where
  "issue_erin = mk_issue ''Port to ARM'' ''open'' ''erin'' ''events/7''"

definition stale_repo :: upstream where
  "stale_repo url params =
     (if url = ''issues'' \<and> params = [] then ok (JArr [issue_erin])
      else if url = ''pulls'' \<and> params = [(''state'', ''open'')] then ok (JArr [])
      else if url = ''events/7'' \<and> params = [] then
        ok (JArr [mk_assigned ''erin'' ''2024-04-04T10:00:00Z''])
      else None)"

definition april_4th :: datetime where
  "april_4th = \<lparr>year = 2024, month = 4, day = 4, hour = 10, minute = 0, second = 0,
               microsecond = 0\<rparr>"


text \<open>The same repository seen through a second service, which differs from the first
  only at a URL that the correlator does not ask for.\<close>

definition acme_mirror :: upstream where
  "acme_mirror url params =
     (if url = ''stars'' then ok (JNum 7) else acme_widget url params)"

section \<open>Sequencing, fetching and the loop over the events\<close>

lemma and_then_Inr [simp]: "and_then (Inr x) f = f x"
  by (simp add: and_then_def)

lemma and_then_Inl [simp]: "and_then (Inl e) f = Inl e"
  by (simp add: and_then_def)

lemma and_then_eq_Inr: "and_then r f = Inr y \<longleftrightarrow> (\<exists>x. r = Inr x \<and> f x = Inr y)"
  by (cases r) simp_all

lemma except_Inr [simp]: "except_RequestException (Inr x) d = Inr x"
  by (simp add: except_RequestException_def)

lemma except_Inl [simp]:
  "except_RequestException (Inl e) d = (if e = RequestException then Inr d else Inl e)"
  by (cases e) (simp_all add: except_RequestException_def)

lemma py_eq_JStr [simp]: "py_eq v (JStr s) \<longleftrightarrow> v = JStr s"
  by (cases v) auto

lemma dict_get_not_object: "\<not> is_object v \<Longrightarrow> dict_get v k d = Inl AttributeError"
  by (cases v) (simp_all add: is_object_def)

lemma assignment_loop_step:
  "assignment_loop (e # es) info =
     (if \<not> well_formed_event e then Inl AttributeError
      else if is_assigned e
      then assignment_loop es
             (AList.update ''assigned_at'' (event_time e)
               (AList.update ''assignee'' (event_login e) info))
      else assignment_loop es info)"
proof (cases e)
  case (JObj kvs)
  show ?thesis
  proof (cases "map_of kvs ''assignee''")
    case None
    with JObj show ?thesis
      by (auto simp: well_formed_event_def is_object_def is_assigned_def field_def
          event_login_def event_time_def split: option.splits)
  next
    case (Some a)
    with JObj show ?thesis
      by (cases a)
        (auto simp: well_formed_event_def is_object_def is_assigned_def field_def
          event_login_def event_time_def split: option.splits)
  qed
qed (simp_all add: well_formed_event_def is_object_def)

lemma last_assigned_Cons:
  "last_assigned (e # es) =
     (case last_assigned es of None \<Rightarrow> (if is_assigned e then Some e else None) | Some e' \<Rightarrow> Some e')"
  by (auto simp: last_assigned_def split: list.splits)

lemma assignment_loop_result:
  assumes "info = [] \<or> (\<exists>a t. info = [(''assignee'', a), (''assigned_at'', t)])"
  shows "assignment_loop events info =
     (if list_all well_formed_event events
      then Inr (case last_assigned events of
                  None \<Rightarrow> info
                | Some e \<Rightarrow> [(''assignee'', event_login e), (''assigned_at'', event_time e)])
      else Inl AttributeError)"
  using assms
proof (induction events arbitrary: info)
  case Nil
  then show ?case by (simp add: last_assigned_def)
next
  case (Cons e es)
  have upd: "AList.update ''assigned_at'' t' (AList.update ''assignee'' a' info) =
        [(''assignee'', a'), (''assigned_at'', t')]" for a' t'
    using Cons.prems by auto
  show ?case
  proof (cases "well_formed_event e")
    case False
    then show ?thesis by (simp add: assignment_loop_step del: assignment_loop.simps)
  next
    case True
    show ?thesis
    proof (cases "is_assigned e")
      case False
      with True Cons.IH [OF Cons.prems] show ?thesis
        by (simp add: assignment_loop_step last_assigned_Cons del: assignment_loop.simps
            split: option.splits)
    next
      case assigned: True
      have "assignment_loop (e # es) info =
          assignment_loop es [(''assignee'', event_login e), (''assigned_at'', event_time e)]"
        using True assigned by (simp add: assignment_loop_step upd del: assignment_loop.simps)
      also have "\<dots> = (if list_all well_formed_event es
          then Inr (case last_assigned es of
                  None \<Rightarrow> [(''assignee'', event_login e), (''assigned_at'', event_time e)]
                | Some e \<Rightarrow> [(''assignee'', event_login e), (''assigned_at'', event_time e)])
          else Inl AttributeError)"
        by (rule Cons.IH) blast
      finally show ?thesis using True assigned
        by (simp add: last_assigned_Cons split: option.splits)
    qed
  qed
qed

lemma assignment_loop_empty:
  "assignment_loop events [] =
     (if list_all well_formed_event events then
        (case last_assignment events of JObj info \<Rightarrow> Inr info | _ \<Rightarrow> Inl AttributeError)
      else Inl AttributeError)"
  by (simp add: assignment_loop_result last_assignment_def split: option.splits)

lemma last_assignment_object: "\<exists>info. last_assignment events = JObj info"
  by (simp add: last_assignment_def split: option.splits)

lemma check_events_fetched:
  assumes "fetch_events up issue = Inr (JArr events)"
  shows "check_issue_assignment_events up issue =
     (if list_all well_formed_event events then Inr (last_assignment events)
      else Inl AttributeError)"
  using assms last_assignment_object [of events]
  by (auto simp: check_issue_assignment_events_def assignment_loop_empty)


lemma fetch_events_object:
  "fetch_events up (JObj kvs) =
     (case map_of kvs ''events_url'' of
        Some (JStr url) \<Rightarrow>
          if transport_failure (up url []) then Inl RequestException
          else Inr (the (body (the (up url []))))
      | Some _ \<Rightarrow> Inl RequestException
      | None \<Rightarrow> if transport_failure (up [] []) then Inl RequestException
          else Inr (the (body (the (up [] [])))))"
  by (auto simp: fetch_events_def transport_failure_def raise_for_status_def response_json_def
      split: option.splits json.splits)

lemma except_Inr_cases:
  "except_RequestException r d = Inr v \<Longrightarrow> r = Inr v \<or> (r = Inl RequestException \<and> v = d)"
  by (cases r) (auto split: if_splits)

lemma check_events_Inr:
  assumes "check_issue_assignment_events up issue = Inr v"
  shows "is_object issue \<and> is_object v"
proof -
  have obj: "is_object issue"
  proof (rule ccontr)
    assume "\<not> is_object issue"
    then have "check_issue_assignment_events up issue = Inl AttributeError"
      by (simp add: check_issue_assignment_events_def fetch_events_def dict_get_not_object)
    with assms show False by simp
  qed
  from assms have "is_object v"
    unfolding check_issue_assignment_events_def
    by (auto dest!: except_Inr_cases simp: and_then_eq_Inr is_object_def)
  with obj show ?thesis ..
qed

section \<open>The loops of the correlator\<close>

lemma rd_days_bool: "(if rd_bool td then rd_days td else 0) = rd_days td"
  by (simp add: rd_bool_def)

lemma annotate_issue_eq:
  "annotate_issue up now issue =
     and_then (check_issue_assignment_events up issue) (\<lambda>info.
     and_then (elapsed_days now (info_assigned_at info)) (\<lambda>d.
       Inr (with_annotations issue info d)))"
proof (cases "check_issue_assignment_events up issue")
  case (Inl e)
  then show ?thesis by (simp add: annotate_issue_def)
next
  case (Inr info)
  from check_events_Inr [OF Inr] obtain kvs ikvs where
    shape: "issue = JObj kvs" "info = JObj ikvs"
    by (cases issue; cases info) (simp_all add: is_object_def)
  show ?thesis
  proof (cases "truthy (info_assigned_at info)")
    case False
    with Inr shape show ?thesis
      by (simp add: annotate_issue_def elapsed_days_def with_annotations_def
          info_assigned_at_def field_def update_conv' split: option.splits)
  next
    case True
    with Inr shape show ?thesis
      by (cases "strptime (info_assigned_at info)")
        (simp_all add: annotate_issue_def elapsed_days_def with_annotations_def
          info_assigned_at_def field_def update_conv' rd_days_bool split: option.splits)
  qed
qed

lemma annotate_issue_Inr:
  "annotate_issue up now issue = Inr x \<longleftrightarrow>
     (\<exists>info d. check_issue_assignment_events up issue = Inr info \<and>
        elapsed_days now (info_assigned_at info) = Inr d \<and> x = with_annotations issue info d)"
  by (auto simp: annotate_issue_eq and_then_eq_Inr)

lemma annotate_loop_Inr:
  "annotate_loop up clock i issues = Inr out \<Longrightarrow>
     length out = length issues \<and>
     (\<forall>j<length issues. annotate_issue up (clock (i + j)) (issues ! j) = Inr (out ! j))"
proof (induction issues arbitrary: i out)
  case Nil
  then show ?case by simp
next
  case (Cons x xs)
  from Cons.prems obtain x' rest where
    x': "annotate_issue up (clock i) x = Inr x'" and
    rest: "annotate_loop up clock (Suc i) xs = Inr rest" and out: "out = x' # rest"
    by (auto simp: and_then_eq_Inr)
  from Cons.IH [OF rest] have len: "length rest = length xs" and
    each: "\<forall>j<length xs. annotate_issue up (clock (Suc i + j)) (xs ! j) = Inr (rest ! j)"
    by simp_all
  show ?case
  proof (intro conjI allI impI)
    show "length out = length (x # xs)" using len out by simp
  next
    fix j assume "j < length (x # xs)"
    then show "annotate_issue up (clock (i + j)) ((x # xs) ! j) = Inr (out ! j)"
      using x' each out by (cases j) simp_all
  qed
qed


lemma filter_raising_Inr:
  "filter_raising p xs = Inr ys \<Longrightarrow>
     (\<forall>x\<in>set xs. \<exists>b. p x = Inr b) \<and> ys = filter (\<lambda>x. p x = Inr True) xs"
proof (induction xs arbitrary: ys)
  case Nil
  then show ?case by simp
next
  case (Cons x xs)
  from Cons.prems obtain keep rest where
    k: "p x = Inr keep" and r: "filter_raising p xs = Inr rest" and
    ys: "ys = (if keep then x # rest else rest)"
    by (auto simp: and_then_eq_Inr)
  from Cons.IH [OF r] k ys show ?case by auto
qed



lemma issue_days_annotated [simp]: "issue_days (with_annotations (JObj kvs) info d) = d"
  by (simp add: issue_days_def with_annotations_def update_conv')

lemma assignee_login_annotated [simp]:
  "assignee_login (with_annotations (JObj kvs) info d) = assignee_login (JObj kvs)"
  by (simp add: assignee_login_def with_annotations_def update_conv')

lemma non_compliant_annotated:
  "non_compliant users (with_annotations (JObj kvs) info d) =
     (if d \<ge> 1 then
        (case map_of kvs ''assignee'' of
           None \<Rightarrow> Inr (\<not> py_in JNull users)
         | Some a \<Rightarrow> if is_object a then Inr (\<not> py_in (assignee_login (JObj kvs)) users)
                      else Inl AttributeError)
      else Inr False)"
proof (cases "map_of kvs ''assignee''")
  case None
  then show ?thesis
    by (simp add: non_compliant_def with_annotations_def update_conv')
next
  case (Some a)
  then show ?thesis
    by (cases a)
      (simp_all add: non_compliant_def with_annotations_def update_conv' is_object_def
        assignee_login_def split: option.splits)
qed

lemma non_compliant_annotated_Inr:
  assumes "non_compliant users (with_annotations (JObj kvs) info d) = Inr b"
  shows "b \<longleftrightarrow> d \<ge> 1 \<and> \<not> py_in (assignee_login (JObj kvs)) users"
  using assms
  by (auto simp: non_compliant_annotated assignee_login_def split: if_splits option.splits)

lemma correlator_Inr:
  "get_issues_without_pull_requests up clock iu pu = Inr result \<longleftrightarrow>
     (\<exists>issues out prs users.
        get_all_open_and_assigned_issues up iu = Inr issues \<and>
        annotate_loop up clock 0 issues = Inr out \<and>
        get_all_open_pull_requests up pu = Inr prs \<and>
        pull_requests_users prs = Inr users \<and>
        filter_raising (non_compliant users) out = Inr result)"
  by (auto simp: get_issues_without_pull_requests_def and_then_eq_Inr)

lemma annotated_shape:
  assumes "annotate_loop up clock i issues = Inr out" and "j < length issues"
  shows "\<exists>kvs info d. issues ! j = JObj kvs \<and> out ! j = with_annotations (JObj kvs) info d \<and>
           check_issue_assignment_events up (issues ! j) = Inr info \<and>
           elapsed_days (clock (i + j)) (info_assigned_at info) = Inr d"
proof -
  from annotate_loop_Inr [OF assms(1)] assms(2)
  have "annotate_issue up (clock (i + j)) (issues ! j) = Inr (out ! j)" by simp
  then obtain info d where
    c: "check_issue_assignment_events up (issues ! j) = Inr info" and
    e: "elapsed_days (clock (i + j)) (info_assigned_at info) = Inr d" and
    o: "out ! j = with_annotations (issues ! j) info d"
    by (auto simp: annotate_issue_Inr)
  from check_events_Inr [OF c] obtain kvs where "issues ! j = JObj kvs"
    by (cases "issues ! j") (simp_all add: is_object_def)
  with c e o show ?thesis by auto
qed

lemma selected_annotated:
  assumes loop: "annotate_loop up clock i issues = Inr out"
    and sel: "filter_raising (non_compliant users) out = Inr result"
  shows "result = filter (\<lambda>x. issue_days x \<ge> 1 \<and> \<not> py_in (assignee_login x) users) out"
proof -
  from filter_raising_Inr [OF sel] have
    total: "\<forall>x\<in>set out. \<exists>b. non_compliant users x = Inr b" and
    res: "result = filter (\<lambda>x. non_compliant users x = Inr True) out"
    by simp_all
  have len: "length out = length issues" using annotate_loop_Inr [OF loop] by simp
  have "filter (\<lambda>x. non_compliant users x = Inr True) out =
        filter (\<lambda>x. issue_days x \<ge> 1 \<and> \<not> py_in (assignee_login x) users) out"
  proof (rule filter_cong [OF refl])
    fix x assume x: "x \<in> set out"
    then obtain j where j: "j < length out" "x = out ! j" by (auto simp: in_set_conv_nth)
    with annotated_shape [OF loop, of j] len obtain kvs info d where
      shape: "x = with_annotations (JObj kvs) info d" by auto
    from total x obtain b where b: "non_compliant users x = Inr b" by auto
    from non_compliant_annotated_Inr [OF b [unfolded shape]] b shape
    show "(non_compliant users x = Inr True) =
          (issue_days x \<ge> 1 \<and> \<not> py_in (assignee_login x) users)"
      by auto
  qed
  with res show ?thesis by simp
qed

lemma set_months_zero: "set_months 0 = (0, 0)"
  by (simp add: set_months_def)

lemma radd_zero: "day dt \<le> days_in_month (year dt) (month dt) \<Longrightarrow> radd (0, 0) dt = dt"
  by (simp add: radd_def)

lemma dt_less_irrefl: "\<not> dt_less dt dt"
  by (simp add: dt_less_def)

lemma relativedelta_self:
  assumes "valid_datetime dt"
  shows "rd_days (relativedelta dt dt) = 0"
proof -
  have r: "radd (0, 0) dt = dt"
    using assms by (intro radd_zero) (simp add: valid_datetime_def)
  have a: "rd_adjust False dt dt 0 = 0"
    by (subst rd_adjust.simps) (simp add: r dt_less_irrefl set_months_zero)
  have s: "dt_sub dt dt = \<lparr>td_days = 0, td_seconds = 0, td_microseconds = 0\<rparr>"
    by (simp add: dt_sub_def timedelta_def)
  show ?thesis
    by (simp add: relativedelta_def dt_less_irrefl a r s fix_rd_def carry_def set_months_zero
        Let_def)
qed

lemma strptime_valid: "strptime t = Inr dt \<Longrightarrow> valid_datetime dt \<and> truthy t"
  by (auto simp: strptime_def strptime_match_def digits_then_def
      split: json.splits option.splits if_splits)

section \<open>A pass over the repository \<open>acme/widget\<close>\<close>

lemma annotate_issue_run:
  assumes "check_issue_assignment_events up issue = Inr info"
    and "info_assigned_at info = t"
    and "elapsed_days now t = Inr d"
  shows "annotate_issue up now issue = Inr (with_annotations issue info d)"
  using assms by (simp add: annotate_issue_eq)

lemma elapsed_days_run:
  assumes "strptime (JStr s) = Inr dt2" and "rd_days (relativedelta now dt2) = d"
  shows "elapsed_days now (JStr s) = Inr d"
  using assms strptime_valid [OF assms(1)] by (simp add: elapsed_days_def)

lemma acme_fetched:
  "get_all_open_and_assigned_issues acme_widget ''issues'' =
     Inr [issue_alice, issue_bob, issue_carol, issue_dave]"
  by code_simp

lemma acme_alice:
  "annotate_issue acme_widget may_4th issue_alice =
     Inr (with_annotations issue_alice (mk_info ''alice'' ''2024-05-01T09:00:00Z'') 3)"
proof (rule annotate_issue_run)
  show "check_issue_assignment_events acme_widget issue_alice =
      Inr (mk_info ''alice'' ''2024-05-01T09:00:00Z'')"
    by code_simp
  show "info_assigned_at (mk_info ''alice'' ''2024-05-01T09:00:00Z'') =
      JStr ''2024-05-01T09:00:00Z''"
    by code_simp
  show "elapsed_days may_4th (JStr ''2024-05-01T09:00:00Z'') = Inr 3"
  proof (rule elapsed_days_run)
    show "strptime (JStr ''2024-05-01T09:00:00Z'') =
        Inr \<lparr>year = 2024, month = 5, day = 1, hour = 9, minute = 0, second = 0,
             microsecond = 0\<rparr>"
      by code_simp
    show "rd_days (relativedelta may_4th
        \<lparr>year = 2024, month = 5, day = 1, hour = 9, minute = 0, second = 0,
          microsecond = 0\<rparr>) = 3"
      by code_simp
  qed
qed

lemma acme_bob:
  "annotate_issue acme_widget may_4th issue_bob =
     Inr (with_annotations issue_bob (mk_info ''bob'' ''2024-05-02T07:30:00Z'') 2)"
proof (rule annotate_issue_run)
  show "check_issue_assignment_events acme_widget issue_bob =
      Inr (mk_info ''bob'' ''2024-05-02T07:30:00Z'')"
    by code_simp
  show "info_assigned_at (mk_info ''bob'' ''2024-05-02T07:30:00Z'') =
      JStr ''2024-05-02T07:30:00Z''"
    by code_simp
  show "elapsed_days may_4th (JStr ''2024-05-02T07:30:00Z'') = Inr 2"
  proof (rule elapsed_days_run)
    show "strptime (JStr ''2024-05-02T07:30:00Z'') =
        Inr \<lparr>year = 2024, month = 5, day = 2, hour = 7, minute = 30, second = 0,
             microsecond = 0\<rparr>"
      by code_simp
    show "rd_days (relativedelta may_4th
        \<lparr>year = 2024, month = 5, day = 2, hour = 7, minute = 30, second = 0,
          microsecond = 0\<rparr>) = 2"
      by code_simp
  qed
qed

lemma acme_carol:
  "annotate_issue acme_widget may_4th issue_carol =
     Inr (with_annotations issue_carol (mk_info ''carol'' ''2024-05-04T10:00:00Z'') 0)"
proof (rule annotate_issue_run)
  show "check_issue_assignment_events acme_widget issue_carol =
      Inr (mk_info ''carol'' ''2024-05-04T10:00:00Z'')"
    by code_simp
  show "info_assigned_at (mk_info ''carol'' ''2024-05-04T10:00:00Z'') =
      JStr ''2024-05-04T10:00:00Z''"
    by code_simp
  show "elapsed_days may_4th (JStr ''2024-05-04T10:00:00Z'') = Inr 0"
  proof (rule elapsed_days_run)
    show "strptime (JStr ''2024-05-04T10:00:00Z'') = Inr may_4th"
      by code_simp
    show "rd_days (relativedelta may_4th may_4th) = 0"
      by code_simp
  qed
qed

lemma acme_dave:
  "annotate_issue acme_widget may_4th issue_dave =
     Inr (with_annotations issue_dave (JObj []) 0)"
proof (rule annotate_issue_run)
  show "check_issue_assignment_events acme_widget issue_dave = Inr (JObj [])"
    by code_simp
  show "info_assigned_at (JObj []) = JNull"
    by code_simp
  show "elapsed_days may_4th JNull = Inr 0"
    by (simp add: elapsed_days_def)
qed

lemma acme_annotated:
  "annotate_loop acme_widget (always may_4th) 0 [issue_alice, issue_bob, issue_carol, issue_dave] =
     Inr [with_annotations issue_alice (mk_info ''alice'' ''2024-05-01T09:00:00Z'') 3,
          with_annotations issue_bob (mk_info ''bob'' ''2024-05-02T07:30:00Z'') 2,
          with_annotations issue_carol (mk_info ''carol'' ''2024-05-04T10:00:00Z'') 0,
          with_annotations issue_dave (JObj []) 0]"
  by (simp add: always_def acme_alice acme_bob acme_carol acme_dave)

lemma acme_pulls:
  "get_all_open_pull_requests acme_widget ''pulls'' =
     Inr (JArr [JObj [(''title'', JStr ''Cache''), (''user'', JObj [(''login'', JStr ''bob'')])]])"
  by code_simp

lemma acme_users:
  "pull_requests_users
     (JArr [JObj [(''title'', JStr ''Cache''), (''user'', JObj [(''login'', JStr ''bob'')])]]) =
   Inr [JStr ''bob'']"
  by code_simp

lemma acme_selected:
  "filter_raising (non_compliant [JStr ''bob''])
     [with_annotations issue_alice (mk_info ''alice'' ''2024-05-01T09:00:00Z'') 3,
      with_annotations issue_bob (mk_info ''bob'' ''2024-05-02T07:30:00Z'') 2,
      with_annotations issue_carol (mk_info ''carol'' ''2024-05-04T10:00:00Z'') 0,
      with_annotations issue_dave (JObj []) 0] =
   Inr [with_annotations issue_alice (mk_info ''alice'' ''2024-05-01T09:00:00Z'') 3]"
  by code_simp

lemma acme_result:
  "get_issues_without_pull_requests acme_widget (always may_4th) ''issues'' ''pulls'' =
     Inr [with_annotations issue_alice (mk_info ''alice'' ''2024-05-01T09:00:00Z'') 3]"
  by (simp only: get_issues_without_pull_requests_def acme_fetched acme_annotated acme_pulls
      acme_users acme_selected and_then_Inr)




lemma acme_carol_now:
  "check_issue_assignment_events acme_widget issue_carol =
     Inr (mk_info ''carol'' ''2024-05-04T10:00:00Z'') \<and>
   strptime (info_assigned_at (mk_info ''carol'' ''2024-05-04T10:00:00Z'')) =
     Inr (always may_4th 2)"
proof
  show "check_issue_assignment_events acme_widget issue_carol =
     Inr (mk_info ''carol'' ''2024-05-04T10:00:00Z'')"
    by code_simp
  have "info_assigned_at (mk_info ''carol'' ''2024-05-04T10:00:00Z'') =
      JStr ''2024-05-04T10:00:00Z''"
    by code_simp
  moreover have "strptime (JStr ''2024-05-04T10:00:00Z'') = Inr may_4th"
    by code_simp
  ultimately show "strptime (info_assigned_at (mk_info ''carol'' ''2024-05-04T10:00:00Z'')) =
     Inr (always may_4th 2)"
    by (simp add: always_def)
qed

lemma acme_dave_events: "fetch_events acme_widget issue_dave = Inr (JArr [])"
  by code_simp


lemma get_issues_cong:
  "up1 url [] = up2 url [] \<Longrightarrow>
     get_all_open_and_assigned_issues up1 url = get_all_open_and_assigned_issues up2 url"
  by (simp add: get_all_open_and_assigned_issues_def)

lemma get_pulls_cong:
  "up1 url [(''state'', ''open'')] = up2 url [(''state'', ''open'')] \<Longrightarrow>
     get_all_open_pull_requests up1 url = get_all_open_pull_requests up2 url"
  by (simp add: get_all_open_pull_requests_def)

lemma check_events_cong:
  "fetch_events up1 issue = fetch_events up2 issue \<Longrightarrow>
     check_issue_assignment_events up1 issue = check_issue_assignment_events up2 issue"
  by (simp add: check_issue_assignment_events_def)

lemma annotate_loop_cong:
  "\<forall>x\<in>set issues. fetch_events up1 x = fetch_events up2 x \<Longrightarrow>
     annotate_loop up1 clock i issues = annotate_loop up2 clock i issues"
proof (induction issues arbitrary: i)
  case Nil
  show ?case by simp
next
  case (Cons x xs)
  from Cons.prems have "fetch_events up1 x = fetch_events up2 x" by simp
  then have "check_issue_assignment_events up1 x = check_issue_assignment_events up2 x"
    by (rule check_events_cong)
  then have x: "annotate_issue up1 now x = annotate_issue up2 now x" for now
    by (simp only: annotate_issue_eq)
  from Cons.prems have "\<forall>y\<in>set xs. fetch_events up1 y = fetch_events up2 y" by simp
  from Cons.IH [OF this] have "annotate_loop up1 clock (Suc i) xs = annotate_loop up2 clock (Suc i) xs" .
  with x show ?case by (simp only: annotate_loop.simps)
qed

lemma acme_mirror_same:
  "acme_widget ''issues'' [] = acme_mirror ''issues'' [] \<and>
   acme_widget ''pulls'' [(''state'', ''open'')] = acme_mirror ''pulls'' [(''state'', ''open'')] \<and>
   fetch_events acme_widget issue_alice = fetch_events acme_mirror issue_alice \<and>
   fetch_events acme_widget issue_bob = fetch_events acme_mirror issue_bob \<and>
   fetch_events acme_widget issue_carol = fetch_events acme_mirror issue_carol \<and>
   fetch_events acme_widget issue_dave = fetch_events acme_mirror issue_dave"
proof (intro conjI)
  show "acme_widget ''issues'' [] = acme_mirror ''issues'' []"
    by (simp add: acme_mirror_def)
  show "acme_widget ''pulls'' [(''state'', ''open'')] =
      acme_mirror ''pulls'' [(''state'', ''open'')]"
    by (simp add: acme_mirror_def)
  have a1: "fetch_events acme_widget issue_alice = Inr (JArr events_alice)"
    by code_simp
  have a2: "fetch_events acme_mirror issue_alice = Inr (JArr events_alice)"
    by code_simp
  have b1: "fetch_events acme_widget issue_bob =
      Inr (JArr [mk_assigned ''bob'' ''2024-05-02T07:30:00Z''])"
    by code_simp
  have b2: "fetch_events acme_mirror issue_bob =
      Inr (JArr [mk_assigned ''bob'' ''2024-05-02T07:30:00Z''])"
    by code_simp
  have c1: "fetch_events acme_widget issue_carol =
      Inr (JArr [mk_assigned ''carol'' ''2024-05-04T10:00:00Z''])"
    by code_simp
  have c2: "fetch_events acme_mirror issue_carol =
      Inr (JArr [mk_assigned ''carol'' ''2024-05-04T10:00:00Z''])"
    by code_simp
  have d2: "fetch_events acme_mirror issue_dave = Inr (JArr [])"
    by code_simp
  show "fetch_events acme_widget issue_alice = fetch_events acme_mirror issue_alice"
    by (simp only: a1 a2)
  show "fetch_events acme_widget issue_bob = fetch_events acme_mirror issue_bob"
    by (simp only: b1 b2)
  show "fetch_events acme_widget issue_carol = fetch_events acme_mirror issue_carol"
    by (simp only: c1 c2)
  show "fetch_events acme_widget issue_dave = fetch_events acme_mirror issue_dave"
    by (simp only: acme_dave_events d2)
qed

lemma acme_mirror_differs: "acme_widget ''stars'' [] \<noteq> acme_mirror ''stars'' []"
  by (simp add: acme_mirror_def acme_widget_def ok_def)

section \<open>Responses of the expected shape\<close>


















section \<open>The deadline report, step by step\<close>

lemma deadline_not_assigned:
  assumes "check_issue_assignment_events up issue = Inr info"
    and "\<not> truthy (info_assigned_at info)"
  shows "get_time_before_deadline up now issue = Inr (''This issue is not assigned.'', issue)"
proof -
  from check_events_Inr [OF assms(1)] obtain ikvs where "info = JObj ikvs"
    by (cases info) (simp_all add: is_object_def)
  with assms show ?thesis
    by (simp add: get_time_before_deadline_def info_assigned_at_def field_def)
qed


lemma deadline_run:
  assumes "check_issue_assignment_events up issue = Inr info"
    and "strptime (info_assigned_at info) = Inr assigned_time"
    and "field issue ''due_on'' = Some due"
    and "strptime due = Inr deadline"
  shows "get_time_before_deadline up now issue =
     Inr (time_left_message (dt_sub deadline now),
          with_assigned_days issue (rd_days (relativedelta now assigned_time)))"
proof -
  from check_events_Inr [OF assms(1)] obtain kvs ikvs where
    shape: "issue = JObj kvs" "info = JObj ikvs"
    by (cases issue; cases info) (simp_all add: is_object_def)
  from strptime_valid [OF assms(2)] have t: "truthy (info_assigned_at info)" by simp
  from strptime_valid [OF assms(4)] have d: "truthy due" by simp
  from assms shape t d show ?thesis
    by (simp add: get_time_before_deadline_def info_assigned_at_def field_def
        time_left_message_def with_assigned_days_def Let_def)
qed



lemma alice_due_info:
  "check_issue_assignment_events acme_widget issue_due =
     Inr (mk_info ''alice'' ''2024-05-01T09:00:00Z'')"
  by code_simp

lemma alice_overdue_info:
  "check_issue_assignment_events acme_widget issue_overdue =
     Inr (mk_info ''alice'' ''2024-05-01T09:00:00Z'')"
  by code_simp

lemma may_1st:
  "strptime (info_assigned_at (mk_info ''alice'' ''2024-05-01T09:00:00Z'')) =
     Inr \<lparr>year = 2024, month = 5, day = 1, hour = 9, minute = 0, second = 0, microsecond = 0\<rparr>"
  by code_simp

lemma three_days:
  "rd_days (relativedelta may_4th
     \<lparr>year = 2024, month = 5, day = 1, hour = 9, minute = 0, second = 0, microsecond = 0\<rparr>) = 3"
  by code_simp

lemma due_field: "field issue_due ''due_on'' = Some (JStr ''2024-05-04T11:59:00Z'')"
  by code_simp

lemma due_time:
  "strptime (JStr ''2024-05-04T11:59:00Z'') =
     Inr \<lparr>year = 2024, month = 5, day = 4, hour = 11, minute = 59, second = 0, microsecond = 0\<rparr>"
  by code_simp

lemma due_message:
  "time_left_message (dt_sub
     \<lparr>year = 2024, month = 5, day = 4, hour = 11, minute = 59, second = 0, microsecond = 0\<rparr>
     may_4th) = ''1 hours 59 minutes remaining''"
  by code_simp

text \<open>The deadline is two hours less a minute away, the assignment three days old.\<close>

lemma due_report:
  "get_time_before_deadline acme_widget may_4th issue_due =
     Inr (''1 hours 59 minutes remaining'', with_assigned_days issue_due 3)"
  using deadline_run [OF alice_due_info may_1st due_field due_time, of may_4th]
  by (simp only: due_message three_days)

lemma overdue_field: "field issue_overdue ''due_on'' = Some (JStr ''2024-05-04T09:00:00Z'')"
  by code_simp

lemma overdue_time:
  "strptime (JStr ''2024-05-04T09:00:00Z'') =
     Inr \<lparr>year = 2024, month = 5, day = 4, hour = 9, minute = 0, second = 0, microsecond = 0\<rparr>"
  by code_simp

lemma overdue_left:
  "dt_sub \<lparr>year = 2024, month = 5, day = 4, hour = 9, minute = 0, second = 0, microsecond = 0\<rparr>
     may_4th = \<lparr>td_days = - 1, td_seconds = 82800, td_microseconds = 0\<rparr>"
  by code_simp

lemma overdue_message:
  "time_left_message \<lparr>td_days = - 1, td_seconds = 82800, td_microseconds = 0\<rparr> =
     ''23 hours 0 minutes remaining''"
  by code_simp



lemma stale_fetched:
  "get_all_open_and_assigned_issues stale_repo ''issues'' = Inr [issue_erin]"
  by code_simp

lemma stale_info:
  "check_issue_assignment_events stale_repo issue_erin =
     Inr (mk_info ''erin'' ''2024-04-04T10:00:00Z'')"
  by code_simp

lemma stale_assigned_at:
  "info_assigned_at (mk_info ''erin'' ''2024-04-04T10:00:00Z'') = JStr ''2024-04-04T10:00:00Z''"
  by code_simp

lemma stale_time: "strptime (JStr ''2024-04-04T10:00:00Z'') = Inr april_4th"
  by code_simp

lemma stale_delta:
  "relativedelta may_4th april_4th =
     \<lparr>rd_years = 0, rd_months = 1, rd_days = 0, rd_hours = 0, rd_minutes = 0, rd_seconds = 0,
      rd_microseconds = 0\<rparr>"
  by code_simp

lemma stale_whole_days: "td_days (dt_sub may_4th april_4th) = 30"
  by code_simp

lemma stale_pulls:
  "get_all_open_pull_requests stale_repo ''pulls'' = Inr (JArr []) \<and>
   pull_requests_users (JArr []) = Inr []"
  by code_simp

lemma stale_selected:
  "filter_raising (non_compliant [])
     [with_annotations issue_erin (mk_info ''erin'' ''2024-04-04T10:00:00Z'') 0] = Inr []"
  by code_simp

section \<open>Properties of the assignment reconstructor\<close>

text \<open>
  C6. For every sequence of events that the fetch returns, the reconstructor
  \<^verbatim>\<open>check_issue_assignment_events\<close> returns the assignee login and the timestamp of the
  last event of the sequence whose kind is \<open>assigned\<close>: later assignments overwrite
  earlier ones, and the assignee field of the issue is never looked at. When no event is an
  assignment, the result is the empty dictionary, in which handle and timestamp are unknown.
  The events are objects, and the assignee of an assignment is an object where it is given;
  on any other sequence the loop raises \<^verbatim>\<open>AttributeError\<close>.
\<close>

theorem reconstructor_returns_last_assigned:
  assumes "fetch_events up issue = Inr (JArr events)"
  shows "check_issue_assignment_events up issue =
     (if list_all well_formed_event events then
        Inr (case last_assigned events of
               None \<Rightarrow> JObj []
             | Some e \<Rightarrow> JObj [(''assignee'', event_login e), (''assigned_at'', event_time e)])
      else Inl AttributeError)"
  using check_events_fetched [OF assms] by (simp add: last_assignment_def)

theorem reconstructor_returns_last_assigned_witness:
  "fetch_events acme_widget issue_alice = Inr (JArr events_alice) \<and>
   list_all well_formed_event events_alice \<and>
   last_assigned events_alice = Some (mk_assigned ''alice'' ''2024-05-01T09:00:00Z'') \<and>
   check_issue_assignment_events acme_widget issue_alice =
     Inr (JObj [(''assignee'', JStr ''alice''), (''assigned_at'', JStr ''2024-05-01T09:00:00Z'')])"
proof -
  have fetched: "fetch_events acme_widget issue_alice = Inr (JArr events_alice)"
    by code_simp
  have shape: "list_all well_formed_event events_alice"
    by code_simp
  have last: "last_assigned events_alice = Some (mk_assigned ''alice'' ''2024-05-01T09:00:00Z'')"
    by code_simp
  have login: "event_login (mk_assigned ''alice'' ''2024-05-01T09:00:00Z'') = JStr ''alice''"
    by code_simp
  have time: "event_time (mk_assigned ''alice'' ''2024-05-01T09:00:00Z'') =
      JStr ''2024-05-01T09:00:00Z''"
    by code_simp
  show ?thesis
    using reconstructor_returns_last_assigned [OF fetched] fetched shape last login time
    by simp
qed

section \<open>Properties of the fetchers\<close>




section \<open>Properties of the compliance correlator\<close>



text \<open>
  C3. An issue whose recorded elapsed days are 0 is never in the result, whatever the pull
  requests are: every issue of the result has at least one day. In particular, an issue
  whose events fetch returns the empty sequence, and an issue whose reconstructed assignment
  timestamp is the current time read for it, both get 0 days and are not in the result.
\<close>

theorem zero_days_never_reported:
  assumes "get_all_open_and_assigned_issues up issues_url = Inr issues"
    and "annotate_loop up clock 0 issues = Inr annotated_issues"
    and "get_issues_without_pull_requests up clock issues_url pull_requests_url = Inr result"
  shows "(\<forall>x\<in>set result. issue_days x \<ge> 1) \<and>
     (\<forall>i<length issues.
        (fetch_events up (issues ! i) = Inr (JArr []) \<or>
         (\<exists>info. check_issue_assignment_events up (issues ! i) = Inr info \<and>
                 strptime (info_assigned_at info) = Inr (clock i)))
        \<longrightarrow> issue_days (annotated_issues ! i) = 0 \<and> annotated_issues ! i \<notin> set result)"
proof -
  from assms obtain users where
    s: "filter_raising (non_compliant users) annotated_issues = Inr result"
    by (auto simp: correlator_Inr)
  from selected_annotated [OF assms(2) s]
  have late: "\<forall>x\<in>set result. issue_days x \<ge> 1" by simp
  have "issue_days (annotated_issues ! i) = 0 \<and> annotated_issues ! i \<notin> set result"
    if i: "i < length issues" and
      c: "fetch_events up (issues ! i) = Inr (JArr []) \<or>
         (\<exists>info. check_issue_assignment_events up (issues ! i) = Inr info \<and>
                 strptime (info_assigned_at info) = Inr (clock i))" for i
  proof -
    from annotated_shape [OF assms(2) i] obtain kvs info d where
      shape: "annotated_issues ! i = with_annotations (JObj kvs) info d" and
      info: "check_issue_assignment_events up (issues ! i) = Inr info" and
      d: "elapsed_days (clock i) (info_assigned_at info) = Inr d"
      by auto
    from c have "d = 0"
    proof
      assume "fetch_events up (issues ! i) = Inr (JArr [])"
      from check_events_fetched [OF this] info have "info = JObj []"
        by (simp add: last_assignment_def last_assigned_def)
      with d show ?thesis
        by (simp add: elapsed_days_def info_assigned_at_def field_def)
    next
      assume "\<exists>info. check_issue_assignment_events up (issues ! i) = Inr info \<and>
                 strptime (info_assigned_at info) = Inr (clock i)"
      with info have t: "strptime (info_assigned_at info) = Inr (clock i)" by auto
      from strptime_valid [OF t] relativedelta_self [of "clock i"] d t
      show ?thesis by (simp add: elapsed_days_def)
    qed
    with shape have z: "issue_days (annotated_issues ! i) = 0" by simp
    with late have "annotated_issues ! i \<notin> set result" by auto
    with z show ?thesis ..
  qed
  with late show ?thesis by blast
qed

theorem zero_days_never_reported_witness:
  "get_all_open_and_assigned_issues acme_widget ''issues'' =
     Inr [issue_alice, issue_bob, issue_carol, issue_dave] \<and>
   get_issues_without_pull_requests acme_widget (always may_4th) ''issues'' ''pulls'' =
     Inr [with_annotations issue_alice (mk_info ''alice'' ''2024-05-01T09:00:00Z'') 3] \<and>
   issue_days (with_annotations issue_alice (mk_info ''alice'' ''2024-05-01T09:00:00Z'') 3) \<ge> 1 \<and>
   check_issue_assignment_events acme_widget issue_carol =
     Inr (mk_info ''carol'' ''2024-05-04T10:00:00Z'') \<and>
   strptime (info_assigned_at (mk_info ''carol'' ''2024-05-04T10:00:00Z'')) =
     Inr (always may_4th 2) \<and>
   issue_days (with_annotations issue_carol (mk_info ''carol'' ''2024-05-04T10:00:00Z'') 0) = 0 \<and>
   with_annotations issue_carol (mk_info ''carol'' ''2024-05-04T10:00:00Z'') 0 \<notin>
     set [with_annotations issue_alice (mk_info ''alice'' ''2024-05-01T09:00:00Z'') 3] \<and>
   fetch_events acme_widget issue_dave = Inr (JArr []) \<and>
   issue_days (with_annotations issue_dave (JObj []) 0) = 0 \<and>
   with_annotations issue_dave (JObj []) 0 \<notin>
     set [with_annotations issue_alice (mk_info ''alice'' ''2024-05-01T09:00:00Z'') 3]"
proof -
  note run = zero_days_never_reported [OF acme_fetched acme_annotated acme_result]
  from run have late:
    "\<forall>x\<in>set [with_annotations issue_alice (mk_info ''alice'' ''2024-05-01T09:00:00Z'') 3].
       issue_days x \<ge> 1"
    by (rule conjunct1)
  from run [THEN conjunct2, rule_format, of 2] acme_carol_now
  have carol: "issue_days (with_annotations issue_carol
        (mk_info ''carol'' ''2024-05-04T10:00:00Z'') 0) = 0 \<and>
      with_annotations issue_carol (mk_info ''carol'' ''2024-05-04T10:00:00Z'') 0 \<notin>
        set [with_annotations issue_alice (mk_info ''alice'' ''2024-05-01T09:00:00Z'') 3]"
    by simp
  from run [THEN conjunct2, rule_format, of 3] acme_dave_events
  have dave: "issue_days (with_annotations issue_dave (JObj []) 0) = 0 \<and>
      with_annotations issue_dave (JObj []) 0 \<notin>
        set [with_annotations issue_alice (mk_info ''alice'' ''2024-05-01T09:00:00Z'') 3]"
    by simp
  from late have alice:
    "issue_days (with_annotations issue_alice (mk_info ''alice'' ''2024-05-01T09:00:00Z'') 3) \<ge> 1"
    by simp
  show ?thesis
    using acme_fetched acme_result alice acme_carol_now carol acme_dave_events dave
    by (intro conjI) (erule conjunct1 conjunct2 | assumption)+
qed



text \<open>
  C9. The correlator reads the upstream state at the issues URL, at the pull-requests URL
  and at the events of the fetched issues, and nothing else. Two runs against upstream states
  that agree there, with the same readings of the clock, end the same way: with the same
  list, or with the same exception.
\<close>

theorem same_upstream_same_result:
  assumes "up1 issues_url [] = up2 issues_url []"
    and "up1 pull_requests_url [(''state'', ''open'')] =
         up2 pull_requests_url [(''state'', ''open'')]"
    and "\<forall>issues. get_all_open_and_assigned_issues up1 issues_url = Inr issues \<longrightarrow>
           (\<forall>issue\<in>set issues. fetch_events up1 issue = fetch_events up2 issue)"
  shows "get_issues_without_pull_requests up1 clock issues_url pull_requests_url =
         get_issues_without_pull_requests up2 clock issues_url pull_requests_url"
proof -
  have g: "get_all_open_and_assigned_issues up2 issues_url =
      get_all_open_and_assigned_issues up1 issues_url"
    by (rule get_issues_cong [symmetric]) (rule assms(1))
  have q: "get_all_open_pull_requests up2 pull_requests_url =
      get_all_open_pull_requests up1 pull_requests_url"
    by (rule get_pulls_cong [symmetric]) (rule assms(2))
  show ?thesis
  proof (cases "get_all_open_and_assigned_issues up1 issues_url")
    case (Inl e)
    then show ?thesis
      by (simp only: get_issues_without_pull_requests_def g and_then_Inl)
  next
    case (Inr issues)
    with assms(3) have "\<forall>issue\<in>set issues. fetch_events up1 issue = fetch_events up2 issue"
      by blast
    then have l: "annotate_loop up2 clock 0 issues = annotate_loop up1 clock 0 issues"
      by (rule annotate_loop_cong [symmetric])
    show ?thesis
      by (simp only: get_issues_without_pull_requests_def g q Inr and_then_Inr l)
  qed
qed

theorem same_upstream_same_result_witness:
  "(acme_widget ''issues'' [] = acme_mirror ''issues'' [] \<and>
    acme_widget ''pulls'' [(''state'', ''open'')] = acme_mirror ''pulls'' [(''state'', ''open'')] \<and>
    fetch_events acme_widget issue_alice = fetch_events acme_mirror issue_alice \<and>
    fetch_events acme_widget issue_bob = fetch_events acme_mirror issue_bob \<and>
    fetch_events acme_widget issue_carol = fetch_events acme_mirror issue_carol \<and>
    fetch_events acme_widget issue_dave = fetch_events acme_mirror issue_dave) \<and>
   get_all_open_and_assigned_issues acme_widget ''issues'' =
     Inr [issue_alice, issue_bob, issue_carol, issue_dave] \<and>
   acme_widget ''stars'' [] \<noteq> acme_mirror ''stars'' [] \<and>
   get_issues_without_pull_requests acme_widget (always may_4th) ''issues'' ''pulls'' =
     get_issues_without_pull_requests acme_mirror (always may_4th) ''issues'' ''pulls''"
proof -
  note same = acme_mirror_same
  note i = same [THEN conjunct1] and p = same [THEN conjunct2, THEN conjunct1]
    and a = same [THEN conjunct2, THEN conjunct2, THEN conjunct1]
    and b = same [THEN conjunct2, THEN conjunct2, THEN conjunct2, THEN conjunct1]
    and c = same [THEN conjunct2, THEN conjunct2, THEN conjunct2, THEN conjunct2, THEN conjunct1]
    and d = same [THEN conjunct2, THEN conjunct2, THEN conjunct2, THEN conjunct2, THEN conjunct2]
  have e: "\<forall>issues. get_all_open_and_assigned_issues acme_widget ''issues'' = Inr issues \<longrightarrow>
           (\<forall>issue\<in>set issues. fetch_events acme_widget issue = fetch_events acme_mirror issue)"
  proof (intro allI impI ballI)
    fix issues issue
    assume "get_all_open_and_assigned_issues acme_widget ''issues'' = Inr issues"
      and "issue \<in> set issues"
    then have "issue \<in> set [issue_alice, issue_bob, issue_carol, issue_dave]"
      by (simp only: acme_fetched sum.inject)
    then have "issue = issue_alice \<or> issue = issue_bob \<or> issue = issue_carol \<or>
        issue = issue_dave"
      by (simp only: set_simps insert_iff empty_iff simp_thms)
    with a b c d
    show "fetch_events acme_widget issue = fetch_events acme_mirror issue"
      by (elim disjE) (simp_all only:)
  qed
  note run = same_upstream_same_result
      [of acme_widget "''issues''" acme_mirror "''pulls''", OF i p e, of "always may_4th"]
  show ?thesis
    by (rule conjI [OF same conjI [OF acme_fetched conjI [OF acme_mirror_differs run]]])
qed

section \<open>Exceptions that escape the correlator\<close>




section \<open>The elapsed days\<close>

text \<open>
  C2. The days that the correlator records are the \<^verbatim>\<open>days\<close> field of
  \<^verbatim>\<open>relativedelta(now, assigned)\<close>, which is what is left after the whole months, not
  the whole days between the two times. Erin's issue was assigned on 2024-04-04 at 10:00 and
  the pass runs on 2024-05-04 at 10:00: thirty whole days lie between, the relativedelta is
  one month and no days, the issue is annotated with 0 days and, with no pull request open,
  is not reported.
\<close>

theorem month_old_assignment_counts_zero_days:
  "strptime (JStr ''2024-04-04T10:00:00Z'') = Inr april_4th \<and>
   td_days (dt_sub may_4th april_4th) = 30 \<and>
   relativedelta may_4th april_4th =
     \<lparr>rd_years = 0, rd_months = 1, rd_days = 0, rd_hours = 0, rd_minutes = 0, rd_seconds = 0,
      rd_microseconds = 0\<rparr> \<and>
   annotate_loop stale_repo (always may_4th) 0 [issue_erin] =
     Inr [with_annotations issue_erin (mk_info ''erin'' ''2024-04-04T10:00:00Z'') 0] \<and>
   get_issues_without_pull_requests stale_repo (always may_4th) ''issues'' ''pulls'' = Inr []"
proof -
  have "rd_days (relativedelta may_4th april_4th) = 0"
    by (simp add: stale_delta)
  with stale_time have "elapsed_days may_4th (JStr ''2024-04-04T10:00:00Z'') = Inr 0"
    by (rule elapsed_days_run)
  with stale_info stale_assigned_at
  have "annotate_issue stale_repo may_4th issue_erin =
      Inr (with_annotations issue_erin (mk_info ''erin'' ''2024-04-04T10:00:00Z'') 0)"
    by (rule annotate_issue_run)
  then have l: "annotate_loop stale_repo (always may_4th) 0 [issue_erin] =
      Inr [with_annotations issue_erin (mk_info ''erin'' ''2024-04-04T10:00:00Z'') 0]"
    by (simp add: always_def)
  have r: "get_issues_without_pull_requests stale_repo (always may_4th) ''issues'' ''pulls'' =
      Inr []"
    by (simp only: get_issues_without_pull_requests_def stale_fetched l
        stale_pulls [THEN conjunct1] stale_pulls [THEN conjunct2] stale_selected and_then_Inr)
  from stale_time stale_whole_days stale_delta l r show ?thesis by (intro conjI)
qed

section \<open>Properties of the deadline report\<close>




text \<open>
  C4. The deadline of the issue is 09:00 and the current time is 10:00 of the same day. The
  difference is the timedelta of -1 day and 82800 seconds; its \<^verbatim>\<open>days\<close> are not
  positive, its \<^verbatim>\<open>seconds\<close> are, and the passed deadline is reported as 23 hours
  remaining.
\<close>

theorem overdue_reported_as_remaining:
  "dt_less \<lparr>year = 2024, month = 5, day = 4, hour = 9, minute = 0, second = 0, microsecond = 0\<rparr>
     may_4th \<and>
   get_time_before_deadline acme_widget may_4th issue_overdue =
     Inr (''23 hours 0 minutes remaining'', with_assigned_days issue_overdue 3)"
proof
  show "dt_less
     \<lparr>year = 2024, month = 5, day = 4, hour = 9, minute = 0, second = 0, microsecond = 0\<rparr>
     may_4th"
    by code_simp
  from deadline_run [OF alice_overdue_info may_1st overdue_field overdue_time, of may_4th]
  show "get_time_before_deadline acme_widget may_4th issue_overdue =
     Inr (''23 hours 0 minutes remaining'', with_assigned_days issue_overdue 3)"
    by (simp only: overdue_left overdue_message three_days)
qed

end
